theory Spec2Isabelle
  imports Complex_Main "HOL-Library.Multiset"
begin

section \<open>The InfiniPlace wire protocol (packages/shared/src/protocol.ts)\<close>

text \<open>
  A shallow embedding of the protocol module: the coordinate conversions, the palette
  registry, the handshake check, and the per-tile delta batches.

  Pixel, tile and offset coordinates, sequence numbers and palette positions are
  integers and are modelled as \<open>int\<close>: on integer arguments the operations the module
  uses (\<open>/\<close> by 64 followed by \<open>Math.floor\<close>, \<open>%\<close>, \<open>*\<close>, \<open>+\<close>) are the integer
  operations written below. Arguments that the module itself tests for being integers
  (a color index, a palette ordinal, the handshake fields) are modelled as JavaScript
  numbers, type \<open>number\<close> below.
\<close>

subsection \<open>Core constants\<close>

definition TILE_SIZE :: int where
  "TILE_SIZE = 64"

definition PROTOCOL_VERSION :: int where
  "PROTOCOL_VERSION = 1"

subsection \<open>JavaScript numbers\<close>

text \<open>
  A JavaScript number is a finite value, \<open>NaN\<close> or one of the two infinities. Finite
  values are embedded in the reals.
\<close>

datatype number = Fin real | NaN | PosInfinity | NegInfinity

text \<open>\<open>Number.isInteger\<close>: false on \<open>NaN\<close> and the infinities.\<close>

fun Number_isInteger :: "number \<Rightarrow> bool" where
  "Number_isInteger (Fin r) = (of_int \<lfloor>r\<rfloor> = r)"
| "Number_isInteger NaN = False"
| "Number_isInteger PosInfinity = False"
| "Number_isInteger NegInfinity = False"

text \<open>The relational operators \<open><\<close> and \<open>>=\<close>: every comparison with \<open>NaN\<close> is false.\<close>

fun js_less :: "number \<Rightarrow> number \<Rightarrow> bool" where
  "js_less NaN b = False"
| "js_less a NaN = False"
| "js_less (Fin a) (Fin b) = (a < b)"
| "js_less (Fin a) PosInfinity = True"
| "js_less (Fin a) NegInfinity = False"
| "js_less PosInfinity b = False"
| "js_less NegInfinity (Fin b) = True"
| "js_less NegInfinity PosInfinity = True"
| "js_less NegInfinity NegInfinity = False"

definition js_ge :: "number \<Rightarrow> number \<Rightarrow> bool" where
  "js_ge a b = (a \<noteq> NaN \<and> b \<noteq> NaN \<and> \<not> js_less a b)"

text \<open>Strict equality \<open>===\<close> on numbers: \<open>NaN\<close> is not equal to itself.\<close>

definition js_strict_eq :: "number \<Rightarrow> number \<Rightarrow> bool" where
  "js_strict_eq a b = (a \<noteq> NaN \<and> a = b)"

text \<open>
  The remainder operator \<open>%\<close> on integers: the result has the sign of the dividend
  and the magnitude of \<open>|a| mod |b|\<close> (truncated division, unlike HOL's \<open>mod\<close>).
\<close>

definition js_rem :: "int \<Rightarrow> int \<Rightarrow> int" where
  "js_rem a b = sgn a * (\<bar>a\<bar> mod \<bar>b\<bar>)"

subsection \<open>Coordinates\<close>

record PixelCoord =
  pc_x :: int
  pc_y :: int

record TileCoord =
  tc_tx :: int
  tc_ty :: int

record TileOffset =
  to_ox :: int
  to_oy :: int

text \<open>\<open>toTileCoord\<close>: \<open>Math.floor(x / TILE_SIZE)\<close> on each axis; the division is the real one.\<close>

definition toTileCoord :: "int \<Rightarrow> int \<Rightarrow> TileCoord" where
  "toTileCoord x y =
     \<lparr> tc_tx = \<lfloor>real_of_int x / real_of_int TILE_SIZE\<rfloor>,
       tc_ty = \<lfloor>real_of_int y / real_of_int TILE_SIZE\<rfloor> \<rparr>"

text \<open>\<open>toTileOffset\<close>: \<open>((v % TILE_SIZE) + TILE_SIZE) % TILE_SIZE\<close> on each axis.\<close>

definition toTileOffset :: "int \<Rightarrow> int \<Rightarrow> TileOffset" where
  "toTileOffset x y =
     (let ox = js_rem (js_rem x TILE_SIZE + TILE_SIZE) TILE_SIZE;
          oy = js_rem (js_rem y TILE_SIZE + TILE_SIZE) TILE_SIZE
      in \<lparr> to_ox = ox, to_oy = oy \<rparr>)"

definition toPixelCoord :: "int \<Rightarrow> int \<Rightarrow> PixelCoord" where
  "toPixelCoord tx ty = \<lparr> pc_x = tx * TILE_SIZE, pc_y = ty * TILE_SIZE \<rparr>"

subsection \<open>Handshake\<close>

record HandshakeInfo =
  protocolVersion :: number
  paletteVersion :: number
  tileSize :: number

definition isCompatible :: "HandshakeInfo \<Rightarrow> bool" where
  "isCompatible server =
     (js_strict_eq (protocolVersion server) (Fin (real_of_int PROTOCOL_VERSION)) \<and>
      js_strict_eq (tileSize server) (Fin (real_of_int TILE_SIZE)))"

subsection \<open>Tile keys\<close>

text \<open>
  The template literal \<open>`${tx}:${ty}`\<close> converts each number to a string by
  \<open>Number::toString\<close> and puts a colon between the two. The conversion is modelled for
  numbers with an integer value, the arguments of \<open>tileKey\<close>.
\<close>

text \<open>Decimal notation of a natural number and of an integer, without padding.\<close>

definition digit_char :: "nat \<Rightarrow> char" where
  "digit_char d = ''0123456789'' ! d"

function show_nat :: "nat \<Rightarrow> string" where
  "show_nat n = (if n < 10 then [digit_char n] else show_nat (n div 10) @ [digit_char (n mod 10)])"
  by pat_completeness auto
termination
  by (relation "measure (\<lambda>n. n)") auto

definition show_int :: "int \<Rightarrow> string" where
  "show_int i = (if i < 0 then CHR ''-'' # show_nat (nat (- i)) else show_nat (nat i))"

text \<open>
  A number has a significand of 53 bits. \<open>to_double v\<close> is the number that the
  integer \<open>v\<close> is read as: \<open>v\<close> itself below \<open>2^53\<close>, and otherwise \<open>v\<close> rounded to 53
  significant bits, to the nearest and on a tie to the even significand. (The number
  format ends below \<open>2^1024\<close>, where the real conversion gives infinity and this one
  a value of at least \<open>2^1024\<close>; neither is a number below \<open>2^1024\<close>, which is all that
  the search below asks.)
\<close>

function bit_length :: "nat \<Rightarrow> nat" where
  "bit_length n = (if n = 0 then 0 else Suc (bit_length (n div 2)))"
  by pat_completeness auto
termination
  by (relation "measure (\<lambda>n. n)") auto

definition to_double :: "nat \<Rightarrow> nat" where
  "to_double v =
     (if v < 2 ^ 53 then v
      else
        let e = bit_length v - 53; q = v div 2 ^ e; r = v mod 2 ^ e; half = 2 ^ (e - 1)
        in if r < half then q * 2 ^ e
           else if half < r then (q + 1) * 2 ^ e
           else (if even q then q else q + 1) * 2 ^ e)"

text \<open>The integers that are numbers: unchanged by the rounding, and below \<open>2^1024\<close>.\<close>

definition is_double :: "int \<Rightarrow> bool" where
  "is_double x = (to_double (nat \<bar>x\<bar>) = nat \<bar>x\<bar> \<and> \<bar>x\<bar> < 2 ^ 1024)"

text \<open>
  \<open>Number::toString\<close> writes the digits of an integer \<open>v\<close> with the fewest significant
  digits that is read back as \<open>x\<close>. Where several have as few, the language
  specification leaves the choice open and engines take the closest to \<open>x\<close>, as is
  done here; the properties proved below do not depend on the choice.
  \<open>shortest x j\<close> tries the multiples of \<open>10^j\<close> just below and just above \<open>x\<close>, then
  those of \<open>10^(j-1)\<close>, and so on down to \<open>x\<close> itself; it starts from the highest
  power of ten that leaves one digit.
\<close>

function shortest :: "nat \<Rightarrow> nat \<Rightarrow> nat" where
  "shortest x j =
     (if j = 0 then x
      else
        let p = 10 ^ j; lo = (x div p) * p; hi = lo + p;
            ok_lo = (0 < lo \<and> to_double lo = x); ok_hi = (to_double hi = x)
        in if ok_lo \<and> ok_hi then
             (if x - lo < hi - x then lo
              else if hi - x < x - lo then hi
              else if even (x div p) then lo else hi)
           else if ok_lo then lo
           else if ok_hi then hi
           else shortest x (j - 1))"
  by pat_completeness auto
termination
  by (relation "measure (\<lambda>(x, j). j)") auto

definition shortest_value :: "nat \<Rightarrow> nat" where
  "shortest_value x = shortest x (length (show_nat x) - 1)"

text \<open>
  The digits are written in full when \<open>v\<close> has at most 21 of them, and otherwise as
  the significant digits, a point after the first one if there are more, \<open>e+\<close> and
  the decimal exponent.
\<close>

fun mantissa :: "string \<Rightarrow> string" where
  "mantissa [] = []"
| "mantissa [d] = [d]"
| "mantissa (d # ds) = d # CHR ''.'' # ds"

definition significant :: "string \<Rightarrow> string" where
  "significant ds = rev (dropWhile (\<lambda>c. c = CHR ''0'') (rev ds))"

definition format_digits :: "nat \<Rightarrow> string" where
  "format_digits v =
     (let ds = show_nat v; n = length ds
      in if n \<le> 21 then ds
         else mantissa (significant ds) @ ''e+'' @ show_nat (n - 1))"

definition Number_toString :: "int \<Rightarrow> string" where
  "Number_toString x =
     (if x < 0 then CHR ''-'' # format_digits (shortest_value (nat (- x)))
      else format_digits (shortest_value (nat x)))"

definition tileKey :: "int \<Rightarrow> int \<Rightarrow> string" where
  "tileKey tx ty = Number_toString tx @ '':'' @ Number_toString ty"

subsection \<open>Palettes\<close>

record Palette =
  pal_id :: string
  pal_name :: string
  pal_version :: int
  pal_colors :: "string list"

record PaletteSet =
  palettes :: "Palette list"
  defaultPaletteId :: string

definition CLASSIC_PALETTE :: Palette where
  "CLASSIC_PALETTE =
     \<lparr> pal_id = ''classic'', pal_name = ''Classic'', pal_version = 3,
       pal_colors =
         [''#FFFFFFFF'', ''#FFAAFFFF'', ''#FF55FFFF'', ''#FF00FFFF'',
          ''#FFFF00FF'', ''#FFAA00FF'', ''#FF5500FF'', ''#FF0000FF'',
          ''#00FFFFFF'', ''#00AAFFFF'', ''#0055FFFF'', ''#0000FFFF'',
          ''#00FF00FF'', ''#00AA00FF'', ''#005500FF'', ''#000000FF''] \<rparr>"

definition EARTH_PALETTE :: Palette where
  "EARTH_PALETTE =
     \<lparr> pal_id = ''earth'', pal_name = ''Earth Tones'', pal_version = 1,
       pal_colors =
         [''#F3E5D0FF'', ''#E9D5B3FF'', ''#DFC49AFF'', ''#D4B183FF'',
          ''#C9A069FF'', ''#B78A56FF'', ''#A67845FF'', ''#946838FF'',
          ''#81572DFF'', ''#6D4824FF'', ''#5A3B1CFF'', ''#4A2E17FF'',
          ''#3B2312FF'', ''#2D1A0EFF'', ''#1F120AFF'', ''#120A05FF''] \<rparr>"

definition SHADES_PALETTE :: Palette where
  "SHADES_PALETTE =
     \<lparr> pal_id = ''shades'', pal_name = ''Shades'', pal_version = 1,
       pal_colors =
         [''#FFFFFFFF'', ''#F5F5F5FF'', ''#EBEBEBFF'', ''#E0E0E0FF'',
          ''#D6D6D6FF'', ''#CCCCCCFF'', ''#C2C2C2FF'', ''#B8B8B8FF'',
          ''#ADADADFF'', ''#A3A3A3FF'', ''#999999FF'', ''#8F8F8FFF'',
          ''#858585FF'', ''#7A7A7AFF'', ''#707070FF'', ''#000000FF''] \<rparr>"

definition PALETTE_SET :: PaletteSet where
  "PALETTE_SET =
     \<lparr> palettes = [CLASSIC_PALETTE, EARTH_PALETTE, SHADES_PALETTE],
       defaultPaletteId = pal_id CLASSIC_PALETTE \<rparr>"

definition DEFAULT_PALETTE :: Palette where
  "DEFAULT_PALETTE = CLASSIC_PALETTE"

subsubsection \<open>Palette ids and ordinals\<close>

text \<open>
  \<open>PALETTE_INDEX_BY_ID\<close> is a plain object filled by \<open>forEach((pal, idx) => map[pal.id] = idx)\<close>:
  its own properties are a map from ids to positions, a later palette overwriting an
  earlier one of the same id.
\<close>

fun index_palettes :: "Palette list \<Rightarrow> nat \<Rightarrow> (string \<rightharpoonup> nat) \<Rightarrow> (string \<rightharpoonup> nat)" where
  "index_palettes [] idx m = m"
| "index_palettes (pal # pals) idx m = index_palettes pals (idx + 1) (m(pal_id pal \<mapsto> idx))"

definition PALETTE_INDEX_BY_ID :: "string \<rightharpoonup> nat" where
  "PALETTE_INDEX_BY_ID = index_palettes (palettes PALETTE_SET) 0 Map.empty"

text \<open>
  Reading a property \<open>PALETTE_INDEX_BY_ID[id]\<close> yields the stored number, or a member
  inherited from \<open>Object.prototype\<close> (a function or an object, for a key such as
  \<open>"constructor"\<close>), or \<open>undefined\<close>.
\<close>

datatype jsvalue = Num number | Inherited | Undefined

definition Object_prototype_keys :: "string list" where
  "Object_prototype_keys =
     [''constructor'', ''__defineGetter__'', ''__defineSetter__'', ''hasOwnProperty'',
      ''__lookupGetter__'', ''__lookupSetter__'', ''isPrototypeOf'',
      ''propertyIsEnumerable'', ''toString'', ''valueOf'', ''__proto__'',
      ''toLocaleString'']"

definition PALETTE_INDEX_BY_ID_get :: "string \<Rightarrow> jsvalue" where
  "PALETTE_INDEX_BY_ID_get key =
     (case PALETTE_INDEX_BY_ID key of
        Some idx \<Rightarrow> Num (Fin (real idx))
      | None \<Rightarrow> if key \<in> set Object_prototype_keys then Inherited else Undefined)"

text \<open>\<open>Number.isInteger\<close> of an arbitrary value: false on everything that is not a number.\<close>

fun isInteger_value :: "jsvalue \<Rightarrow> bool" where
  "isInteger_value (Num n) = Number_isInteger n"
| "isInteger_value Inherited = False"
| "isInteger_value Undefined = False"

definition paletteIdToOrdinal :: "string \<Rightarrow> jsvalue" where
  "paletteIdToOrdinal ident =
     (let idx = PALETTE_INDEX_BY_ID_get ident
      in if isInteger_value idx then idx else PALETTE_INDEX_BY_ID_get (pal_id DEFAULT_PALETTE))"

text \<open>
  Reading an array element \<open>xs[n]\<close> with a number \<open>n\<close>: the element when \<open>n\<close> is an
  integer within \<open>0 \<le> n < xs.length\<close>, and \<open>undefined\<close> (here \<open>None\<close>) otherwise.
\<close>

fun array_get :: "'a list \<Rightarrow> number \<Rightarrow> 'a option" where
  "array_get xs (Fin r) =
     (if of_int \<lfloor>r\<rfloor> = r \<and> 0 \<le> r \<and> r < real (length xs) then Some (xs ! nat \<lfloor>r\<rfloor>) else None)"
| "array_get xs NaN = None"
| "array_get xs PosInfinity = None"
| "array_get xs NegInfinity = None"

definition ordinalToPaletteId :: "number \<Rightarrow> string" where
  "ordinalToPaletteId ordinal =
     (case array_get (palettes PALETTE_SET) ordinal of
        Some pal \<Rightarrow> pal_id pal
      | None \<Rightarrow> pal_id DEFAULT_PALETTE)"

subsubsection \<open>Colors\<close>

text \<open>
  \<open>String.prototype.toUpperCase\<close> is a built-in of the language. On ASCII strings,
  in which palette colors (\<open>#RRGGBB\<close>, \<open>#RRGGBBAA\<close>) are written, it moves the letters
  \<open>a\<close> to \<open>z\<close> (codes 97 to 122) down by 32 and leaves every other character;
  \<open>toUpperCase\<close> below is the built-in on ASCII strings only. The shipped palettes are
  looked up with it. For arbitrary strings, on which the built-in follows the Unicode
  tables and may change the length, see \<open>findColorIndex_js\<close> below.
\<close>

definition toUpperCase_char :: "char \<Rightarrow> char" where
  "toUpperCase_char c =
     (let n = (of_char c :: nat) in if 97 \<le> n \<and> n \<le> 122 then char_of (n - 32) else c)"

definition toUpperCase :: "string \<Rightarrow> string" where
  "toUpperCase s = map toUpperCase_char s"

text \<open>The local function \<open>norm\<close> of \<open>findColorIndex\<close>.\<close>

definition norm_hex :: "string \<Rightarrow> string" where
  "norm_hex hex = (if length hex = 7 then toUpperCase hex @ ''FF'' else toUpperCase hex)"

text \<open>\<open>Array.prototype.findIndex\<close>: the first position whose element satisfies the test, else \<open>-1\<close>.\<close>

fun findIndex_from :: "('a \<Rightarrow> bool) \<Rightarrow> int \<Rightarrow> 'a list \<Rightarrow> int" where
  "findIndex_from P k [] = - 1"
| "findIndex_from P k (c # cs) = (if P c then k else findIndex_from P (k + 1) cs)"

definition findIndex :: "('a \<Rightarrow> bool) \<Rightarrow> 'a list \<Rightarrow> int" where
  "findIndex P cs = findIndex_from P 0 cs"

definition findColorIndex :: "string \<Rightarrow> Palette \<Rightarrow> int" where
  "findColorIndex color palette =
     (let target = norm_hex color
      in findIndex (\<lambda>c. norm_hex c = target) (pal_colors palette))"






text \<open>
  The initialiser of \<open>DEFAULT_BASELINE_COLOR_INDEX\<close>, with the palette that
  \<open>findColorIndex('#FFFFFF')\<close> defaults to as a parameter.
\<close>

definition baseline_color_index :: "Palette \<Rightarrow> int" where
  "baseline_color_index palette =
     (let idx = findColorIndex ''#FFFFFF'' palette in if idx \<ge> 0 then idx else 0)"

definition DEFAULT_BASELINE_COLOR_INDEX :: int where
  "DEFAULT_BASELINE_COLOR_INDEX = baseline_color_index DEFAULT_PALETTE"

definition isValidColorIndex :: "number \<Rightarrow> Palette \<Rightarrow> bool" where
  "isValidColorIndex idx palette =
     (Number_isInteger idx \<and> js_ge idx (Fin 0) \<and>
      js_less idx (Fin (real (length (pal_colors palette)))))"

subsection \<open>Deltas\<close>



text \<open>
  The module declares the shapes \<open>PixelChange\<close> and \<open>TileDelta\<close> only; the client that
  applies deltas is not part of it. The definitions of this subsection follow the
  specification's description of delta application (its section 4.3).
\<close>














section \<open>Properties\<close>

subsection \<open>Arithmetic of the coordinate conversions\<close>

lemma js_rem_64_nonneg: "0 \<le> v \<Longrightarrow> js_rem v 64 = v mod 64"
  by (cases "v = 0") (simp_all add: js_rem_def)

lemma js_rem_64_neg: "v < 0 \<Longrightarrow> js_rem v 64 = - ((- v) mod 64)"
  by (simp add: js_rem_def)

lemma euclid_offset: "js_rem (js_rem v 64 + 64) 64 = v mod 64"
proof (cases "0 \<le> v")
  case True
  then have "js_rem v 64 = v mod 64"
    by (rule js_rem_64_nonneg)
  moreover have "0 \<le> v mod 64"
    by simp
  then have "0 \<le> v mod 64 + 64"
    by linarith
  ultimately show ?thesis
    by (simp add: js_rem_64_nonneg)
next
  case False
  then have neg: "js_rem v 64 = - ((- v) mod 64)"
    by (simp add: js_rem_64_neg)
  have "(- v) mod 64 < 64"
    by simp
  then have "0 \<le> - ((- v) mod 64) + 64"
    by linarith
  then have "js_rem (- ((- v) mod 64) + 64) 64 = (- ((- v) mod 64) + 64) mod 64"
    by (rule js_rem_64_nonneg)
  also have "\<dots> = (64 - (- v) mod 64) mod 64"
    by simp
  also have "\<dots> = (64 - (- v)) mod 64"
    by (rule mod_diff_right_eq)
  also have "\<dots> = v mod 64"
    by simp
  finally show ?thesis
    by (simp add: neg)
qed

lemma floor_tile: "\<lfloor>real_of_int v / real_of_int 64\<rfloor> = v div 64"
  by (rule floor_divide_of_int_eq)

text \<open>
  C1. For all integers \<open>x\<close>, \<open>y\<close>: the top-left pixel of the tile of \<open>(x, y)\<close> plus the
  offset of \<open>(x, y)\<close> inside its tile is \<open>(x, y)\<close> again, on each axis:
  \<open>tx * 64 + ox = x\<close> and \<open>ty * 64 + oy = y\<close>.
\<close>

theorem tile_roundtrip:
  "pc_x (toPixelCoord (tc_tx (toTileCoord x y)) (tc_ty (toTileCoord x y)))
     + to_ox (toTileOffset x y) = x \<and>
   pc_y (toPixelCoord (tc_tx (toTileCoord x y)) (tc_ty (toTileCoord x y)))
     + to_oy (toTileOffset x y) = y \<and>
   tc_tx (toTileCoord x y) * 64 + to_ox (toTileOffset x y) = x \<and>
   tc_ty (toTileCoord x y) * 64 + to_oy (toTileOffset x y) = y"
  by (simp add: toPixelCoord_def toTileCoord_def toTileOffset_def TILE_SIZE_def
        euclid_offset floor_tile del: of_int_numeral)

text \<open>
  C5. For all integers \<open>x\<close>, \<open>y\<close>, negative ones included: each component of
  \<open>toTileOffset(x, y)\<close> is \<open>((v % 64) + 64) % 64\<close>, which is the Euclidean remainder of
  \<open>v\<close> by 64 and lies in \<open>[0, 64)\<close>; and \<open>toTileOffset(-1, -1) = {ox: 63, oy: 63}\<close>.
\<close>

theorem tile_offset_range:
  "to_ox (toTileOffset x y) = js_rem (js_rem x 64 + 64) 64 \<and>
   to_oy (toTileOffset x y) = js_rem (js_rem y 64 + 64) 64 \<and>
   to_ox (toTileOffset x y) = x mod 64 \<and>
   to_oy (toTileOffset x y) = y mod 64 \<and>
   0 \<le> to_ox (toTileOffset x y) \<and> to_ox (toTileOffset x y) < 64 \<and>
   0 \<le> to_oy (toTileOffset x y) \<and> to_oy (toTileOffset x y) < 64 \<and>
   toTileOffset (- 1) (- 1) = \<lparr> to_ox = 63, to_oy = 63 \<rparr>"
  by (simp add: toTileOffset_def TILE_SIZE_def euclid_offset)

subsection \<open>Handshake\<close>

text \<open>
  C4. For every \<open>HandshakeInfo\<close> value \<open>server\<close>: \<open>isCompatible(server)\<close> is true exactly
  when \<open>server.protocolVersion\<close> is \<open>PROTOCOL_VERSION\<close> (1) and \<open>server.tileSize\<close> is
  \<open>TILE_SIZE\<close> (64). Changing \<open>server.paletteVersion\<close> does not change the result;
  \<open>{protocolVersion: 1, paletteVersion: 3, tileSize: 64}\<close> is compatible and
  \<open>{protocolVersion: 2, paletteVersion: 3, tileSize: 64}\<close> is not.
\<close>

theorem isCompatible_iff:
  "(isCompatible server \<longleftrightarrow>
      protocolVersion server = Fin (real_of_int PROTOCOL_VERSION) \<and>
      tileSize server = Fin (real_of_int TILE_SIZE)) \<and>
   (isCompatible server \<longleftrightarrow> protocolVersion server = Fin 1 \<and> tileSize server = Fin 64) \<and>
   isCompatible (server\<lparr>paletteVersion := pv\<rparr>) = isCompatible server \<and>
   isCompatible \<lparr>protocolVersion = Fin 1, paletteVersion = Fin 3, tileSize = Fin 64\<rparr> \<and>
   \<not> isCompatible \<lparr>protocolVersion = Fin 2, paletteVersion = Fin 3, tileSize = Fin 64\<rparr>"
  by (auto simp add: isCompatible_def js_strict_eq_def PROTOCOL_VERSION_def TILE_SIZE_def)

subsection \<open>Color index validation\<close>

lemma integer_in_range_iff:
  "(real_of_int \<lfloor>r\<rfloor> = r \<and> 0 \<le> r \<and> r < real n) \<longleftrightarrow>
   (\<exists>k::int. r = real_of_int k \<and> 0 \<le> k \<and> k < int n)"
proof
  assume h: "real_of_int \<lfloor>r\<rfloor> = r \<and> 0 \<le> r \<and> r < real n"
  define k where "k = \<lfloor>r\<rfloor>"
  from h have "real_of_int \<lfloor>r\<rfloor> = r"
    by (rule conjunct1)
  then have rk: "r = real_of_int k"
    unfolding k_def by (rule sym)
  from h have "0 \<le> real_of_int k" "real_of_int k < real_of_int (int n)"
    unfolding rk by simp_all
  then have "0 \<le> k" "k < int n"
    by (simp_all only: of_int_0_le_iff of_int_less_iff)
  with rk show "\<exists>k::int. r = real_of_int k \<and> 0 \<le> k \<and> k < int n"
    by blast
next
  assume "\<exists>k::int. r = real_of_int k \<and> 0 \<le> k \<and> k < int n"
  then obtain k :: int where "r = real_of_int k" "0 \<le> k" "k < int n"
    by blast
  then show "real_of_int \<lfloor>r\<rfloor> = r \<and> 0 \<le> r \<and> r < real n"
    by simp
qed

lemma isValidColorIndex_Fin:
  "isValidColorIndex (Fin r) p \<longleftrightarrow>
   (real_of_int \<lfloor>r\<rfloor> = r \<and> 0 \<le> r \<and> r < real (length (pal_colors p)))"
  by (auto simp add: isValidColorIndex_def js_ge_def)

text \<open>
  C8. For every number \<open>idx\<close> and palette \<open>p\<close>: \<open>isValidColorIndex(idx, p)\<close> is true exactly
  when \<open>idx\<close> is an integer \<open>k\<close> with \<open>0 \<le> k < p.colors.length\<close>. It is false at \<open>-1\<close>, at
  \<open>1.5\<close> and at \<open>NaN\<close> for every palette, and true at \<open>0\<close> for the classic palette.
\<close>

theorem isValidColorIndex_iff:
  "(isValidColorIndex idx p \<longleftrightarrow>
      (\<exists>k::int. idx = Fin (real_of_int k) \<and> 0 \<le> k \<and> k < int (length (pal_colors p)))) \<and>
   \<not> isValidColorIndex (Fin (- 1)) p \<and>
   \<not> isValidColorIndex (Fin 1.5) p \<and>
   \<not> isValidColorIndex NaN p \<and>
   isValidColorIndex (Fin 0) CLASSIC_PALETTE"
proof -
  have a: "isValidColorIndex idx p \<longleftrightarrow>
      (\<exists>k::int. idx = Fin (real_of_int k) \<and> 0 \<le> k \<and> k < int (length (pal_colors p)))"
  proof (cases idx)
    case (Fin r)
    show ?thesis
      unfolding Fin isValidColorIndex_Fin integer_in_range_iff by simp
  qed (simp_all add: isValidColorIndex_def)
  have b: "\<not> isValidColorIndex (Fin (- 1)) p"
    by (simp add: isValidColorIndex_def js_ge_def)
  have c: "\<not> isValidColorIndex (Fin 1.5) p"
    by (simp add: isValidColorIndex_def)
  have d: "\<not> isValidColorIndex NaN p"
    by (simp add: isValidColorIndex_def)
  have e: "isValidColorIndex (Fin 0) CLASSIC_PALETTE"
    by (simp add: isValidColorIndex_def js_ge_def CLASSIC_PALETTE_def)
  from a b c d e show ?thesis by blast
qed

subsection \<open>Tile keys\<close>

declare show_nat.simps [simp del]

lemma digit_char_inj: "a < 10 \<Longrightarrow> b < 10 \<Longrightarrow> digit_char a = digit_char b \<Longrightarrow> a = b"
proof -
  assume a: "a < 10" and b: "b < 10" and e: "digit_char a = digit_char b"
  have d: "distinct ''0123456789''"
    by simp
  have "a < length ''0123456789''" "b < length ''0123456789''"
    using a b by simp_all
  with d e show "a = b"
    unfolding digit_char_def by (simp only: nth_eq_iff_index_eq)
qed

lemma digit_char_in: "d < 10 \<Longrightarrow> digit_char d \<in> set ''0123456789''"
  unfolding digit_char_def by (rule nth_mem) simp

lemma show_nat_nonempty: "show_nat n \<noteq> []"
  by (subst show_nat.simps) simp

lemma show_nat_digits: "set (show_nat n) \<subseteq> set ''0123456789''"
proof (induction n rule: show_nat.induct)
  case (1 n)
  show ?case
  proof (cases "n < 10")
    case True
    then show ?thesis
      using digit_char_in [of n] by (subst show_nat.simps) simp
  next
    case False
    have "n mod 10 < 10" by simp
    then have "digit_char (n mod 10) \<in> set ''0123456789''"
      by (rule digit_char_in)
    with False "1.IH" show ?thesis
      by (subst show_nat.simps) simp
  qed
qed

lemma show_nat_inj: "show_nat m = show_nat n \<Longrightarrow> m = n"
proof (induction m arbitrary: n rule: show_nat.induct)
  case (1 m)
  show ?case
  proof (cases "m < 10")
    case m: True
    show ?thesis
    proof (cases "n < 10")
      case True
      with m "1.prems" have "digit_char m = digit_char n"
        by (simp add: show_nat.simps [of m] show_nat.simps [of n])
      with m True show ?thesis
        by (rule digit_char_inj)
    next
      case False
      with m "1.prems" have "[digit_char m] = show_nat (n div 10) @ [digit_char (n mod 10)]"
        by (simp add: show_nat.simps [of m] show_nat.simps [of n])
      then have "show_nat (n div 10) = []"
        by simp
      then show ?thesis
        by (simp add: show_nat_nonempty)
    qed
  next
    case m: False
    show ?thesis
    proof (cases "n < 10")
      case True
      with m "1.prems" have "show_nat (m div 10) @ [digit_char (m mod 10)] = [digit_char n]"
        by (simp add: show_nat.simps [of m] show_nat.simps [of n])
      then have "show_nat (m div 10) = []"
        by simp
      then show ?thesis
        by (simp add: show_nat_nonempty)
    next
      case False
      with m "1.prems" have
        "show_nat (m div 10) @ [digit_char (m mod 10)] = show_nat (n div 10) @ [digit_char (n mod 10)]"
        by (simp add: show_nat.simps [of m] show_nat.simps [of n])
      then have hd: "show_nat (m div 10) = show_nat (n div 10)"
        and tl: "digit_char (m mod 10) = digit_char (n mod 10)"
        by simp_all
      from m hd have q: "m div 10 = n div 10"
        by (rule "1.IH")
      have "m mod 10 < 10" "n mod 10 < 10"
        by simp_all
      then have r: "m mod 10 = n mod 10"
        using tl by (rule digit_char_inj)
      have "m = 10 * (m div 10) + m mod 10"
        by simp
      also have "\<dots> = 10 * (n div 10) + n mod 10"
        by (simp only: q r)
      also have "\<dots> = n"
        by simp
      finally show ?thesis .
    qed
  qed
qed

lemma split_at_separator:
  "c \<notin> set a \<Longrightarrow> c \<notin> set a' \<Longrightarrow> a @ c # b = a' @ c # b' \<Longrightarrow> a = a' \<and> b = b'"
proof (induction a arbitrary: a')
  case Nil
  then show ?case by (cases a') auto
next
  case (Cons x a)
  then show ?case by (cases a') auto
qed

declare shortest.simps [simp del] bit_length.simps [simp del]

lemma shortest_cases: "shortest x j = x \<or> to_double (shortest x j) = x"
proof (induction x j rule: shortest.induct)
  case (1 x j)
  show ?case
  proof (cases "j = 0")
    case True
    then show ?thesis
      by (subst shortest.simps) simp
  next
    case False
    define p where "p = (10::nat) ^ j"
    define lo where "lo = (x div p) * p"
    define hi where "hi = lo + p"
    have ih: "shortest x (j - 1) = x \<or> to_double (shortest x (j - 1)) = x"
      if "\<not> (0 < lo \<and> to_double lo = x)" "to_double hi \<noteq> x"
      using that by (intro "1.IH" [OF False refl refl refl refl refl]) (auto simp add: lo_def hi_def p_def)
    have unfold: "shortest x j =
        (if (0 < lo \<and> to_double lo = x) \<and> to_double hi = x then
           (if x - lo < hi - x then lo
            else if hi - x < x - lo then hi
            else if even (x div p) then lo else hi)
         else if 0 < lo \<and> to_double lo = x then lo
         else if to_double hi = x then hi
         else shortest x (j - 1))"
      using False by (subst shortest.simps) (simp add: Let_def p_def lo_def hi_def)
    show ?thesis
      unfolding unfold using ih by auto
  qed
qed

lemma shortest_roundtrip: "to_double x = x \<Longrightarrow> to_double (shortest x j) = x"
  using shortest_cases [of x j] by auto

lemma mantissa_inj:
  "CHR ''.'' \<notin> set a \<Longrightarrow> CHR ''.'' \<notin> set b \<Longrightarrow> mantissa a = mantissa b \<Longrightarrow> a = b"
  by (cases a rule: mantissa.cases; cases b rule: mantissa.cases) auto

lemma set_mantissa: "set (mantissa a) \<subseteq> insert (CHR ''.'') (set a)"
  by (cases a rule: mantissa.cases) auto

lemma set_significant: "set (significant ds) \<subseteq> set ds"
  unfolding significant_def by (auto dest: set_dropWhileD)

lemma significant_padding:
  "significant ds @ replicate (length ds - length (significant ds)) (CHR ''0'') = ds"
proof -
  let ?P = "\<lambda>c. c = CHR ''0''"
  have zeros: "takeWhile ?P ys = replicate (length (takeWhile ?P ys)) (CHR ''0'')" for ys
    by (induction ys) simp_all
  have "rev (takeWhile ?P (rev ds) @ dropWhile ?P (rev ds)) = rev (rev ds)"
    by (simp only: takeWhile_dropWhile_id)
  then have split: "ds = significant ds @ rev (takeWhile ?P (rev ds))"
    by (simp only: significant_def rev_append rev_rev_ident)
  have "length ds = length (significant ds) + length (takeWhile ?P (rev ds))"
    using arg_cong [OF split, of length] by simp
  then have len: "length (takeWhile ?P (rev ds)) = length ds - length (significant ds)"
    by simp
  have "rev (takeWhile ?P (rev ds)) = replicate (length ds - length (significant ds)) (CHR ''0'')"
    using zeros [of "rev ds"] len by (metis rev_replicate)
  with split show ?thesis
    by simp
qed

lemma show_nat_plain:
  "CHR ''e'' \<notin> set (show_nat n)" "CHR ''.'' \<notin> set (show_nat n)"
  "CHR ''+'' \<notin> set (show_nat n)"
  using show_nat_digits [of n] by auto

lemma significant_plain:
  "CHR ''e'' \<notin> set (significant (show_nat n))" "CHR ''.'' \<notin> set (significant (show_nat n))"
  using set_significant [of "show_nat n"] show_nat_plain [of n] by auto

lemma mantissa_no_e: "CHR ''e'' \<notin> set (mantissa (significant (show_nat n)))"
  using set_mantissa [of "significant (show_nat n)"] significant_plain(1) [of n] by auto

lemma format_digits_chars:
  "set (format_digits v) \<subseteq> set ''0123456789'' \<union> {CHR ''.'', CHR ''e'', CHR ''+''}"
proof -
  define D where "D = set ''0123456789''"
  have digits: "set (show_nat n) \<subseteq> D" for n
    unfolding D_def by (rule show_nat_digits)
  have "set (significant (show_nat v)) \<subseteq> D"
    using set_significant [of "show_nat v"] digits [of v] by blast
  then have mant: "set (mantissa (significant (show_nat v))) \<subseteq> D \<union> {CHR ''.'', CHR ''e'', CHR ''+''}"
    using set_mantissa [of "significant (show_nat v)"] by blast
  have "set (format_digits v) \<subseteq> D \<union> {CHR ''.'', CHR ''e'', CHR ''+''}"
  proof (cases "length (show_nat v) \<le> 21")
    case True
    then have "format_digits v = show_nat v"
      by (simp add: format_digits_def Let_def)
    with digits [of v] show ?thesis
      by auto
  next
    case False
    then have "set (format_digits v) =
        set (mantissa (significant (show_nat v))) \<union> {CHR ''e'', CHR ''+''} \<union>
        set (show_nat (length (show_nat v) - 1))"
      by (simp add: format_digits_def Let_def)
    with mant digits [of "length (show_nat v) - 1"] show ?thesis
      by blast
  qed
  then show ?thesis
    unfolding D_def .
qed

lemma format_digits_no_colon: "CHR '':'' \<notin> set (format_digits v)"
proof
  assume "CHR '':'' \<in> set (format_digits v)"
  with format_digits_chars [of v]
  have "CHR '':'' \<in> set ''0123456789'' \<union> {CHR ''.'', CHR ''e'', CHR ''+''}"
    by (rule subsetD)
  then show False
    by simp
qed

lemma format_digits_no_minus: "format_digits v \<noteq> CHR ''-'' # s"
proof
  assume "format_digits v = CHR ''-'' # s"
  then have "CHR ''-'' \<in> set (format_digits v)"
    by simp
  with format_digits_chars [of v]
  have "CHR ''-'' \<in> set ''0123456789'' \<union> {CHR ''.'', CHR ''e'', CHR ''+''}"
    by (rule subsetD)
  then show False
    by simp
qed

lemma format_digits_inj: "format_digits v = format_digits w \<Longrightarrow> v = w"
proof -
  assume eq: "format_digits v = format_digits w"
  let ?dv = "show_nat v" and ?dw = "show_nat w"
  have expo: False
    if short: "length (show_nat a) \<le> 21" and long: "\<not> length (show_nat b) \<le> 21"
      and e: "format_digits a = format_digits b" for a b
  proof -
    from short long e have "show_nat a =
        mantissa (significant (show_nat b)) @ ''e+'' @ show_nat (length (show_nat b) - 1)"
      by (simp add: format_digits_def Let_def)
    then have "CHR ''e'' \<in> set (show_nat a)"
      by simp
    with show_nat_plain(1) [of a] show False
      by simp
  qed
  show "v = w"
  proof (cases "length ?dv \<le> 21")
    case v: True
    show ?thesis
    proof (cases "length ?dw \<le> 21")
      case True
      with v eq have "?dv = ?dw"
        by (simp add: format_digits_def Let_def)
      then show ?thesis
        by (rule show_nat_inj)
    next
      case False
      with v eq expo [of v w] show ?thesis
        by blast
    qed
  next
    case v: False
    show ?thesis
    proof (cases "length ?dw \<le> 21")
      case True
      with v eq expo [of w v] show ?thesis
        by simp
    next
      case False
      with v eq have
        "mantissa (significant ?dv) @ CHR ''e'' # (CHR ''+'' # show_nat (length ?dv - 1)) =
         mantissa (significant ?dw) @ CHR ''e'' # (CHR ''+'' # show_nat (length ?dw - 1))"
        by (simp add: format_digits_def Let_def)
      with mantissa_no_e [of v] mantissa_no_e [of w]
      have "mantissa (significant ?dv) = mantissa (significant ?dw) \<and>
          CHR ''+'' # show_nat (length ?dv - 1) = CHR ''+'' # show_nat (length ?dw - 1)"
        by (rule split_at_separator)
      then have m: "mantissa (significant ?dv) = mantissa (significant ?dw)"
        and n: "show_nat (length ?dv - 1) = show_nat (length ?dw - 1)"
        by simp_all
      from n have "length ?dv - 1 = length ?dw - 1"
        by (rule show_nat_inj)
      with v False have len: "length ?dv = length ?dw"
        by simp
      from significant_plain(2) [of v] significant_plain(2) [of w] m
      have sig: "significant ?dv = significant ?dw"
        by (rule mantissa_inj)
      have "?dv = significant ?dv @ replicate (length ?dv - length (significant ?dv)) (CHR ''0'')"
        by (rule significant_padding [symmetric])
      also have "\<dots> = significant ?dw @ replicate (length ?dw - length (significant ?dw)) (CHR ''0'')"
        by (simp only: sig len)
      also have "\<dots> = ?dw"
        by (rule significant_padding)
      finally show ?thesis
        by (rule show_nat_inj)
    qed
  qed
qed

lemma Number_toString_no_colon: "CHR '':'' \<notin> set (Number_toString x)"
  by (simp add: Number_toString_def format_digits_no_colon)

lemma shortest_value_inj:
  "to_double a = a \<Longrightarrow> to_double b = b \<Longrightarrow> shortest_value a = shortest_value b \<Longrightarrow> a = b"
proof -
  assume a: "to_double a = a" and b: "to_double b = b"
    and e: "shortest_value a = shortest_value b"
  from a have "a = to_double (shortest_value a)"
    unfolding shortest_value_def by (rule shortest_roundtrip [symmetric])
  also have "\<dots> = to_double (shortest_value b)"
    by (simp only: e)
  also from b have "\<dots> = b"
    unfolding shortest_value_def by (rule shortest_roundtrip)
  finally show "a = b" .
qed

lemma Number_toString_inj:
  assumes x: "is_double x" and y: "is_double y" and e: "Number_toString x = Number_toString y"
  shows "x = y"
proof -
  from x y have dx: "to_double (nat \<bar>x\<bar>) = nat \<bar>x\<bar>" and dy: "to_double (nat \<bar>y\<bar>) = nat \<bar>y\<bar>"
    by (simp_all add: is_double_def)
  have same: "nat \<bar>x\<bar> = nat \<bar>y\<bar>"
    if "format_digits (shortest_value (nat \<bar>x\<bar>)) = format_digits (shortest_value (nat \<bar>y\<bar>))"
  proof -
    from that have "shortest_value (nat \<bar>x\<bar>) = shortest_value (nat \<bar>y\<bar>)"
      by (rule format_digits_inj)
    with dx dy show ?thesis
      by (rule shortest_value_inj)
  qed
  show ?thesis
  proof (cases "x < 0")
    case xn: True
    show ?thesis
    proof (cases "y < 0")
      case True
      with xn e same show ?thesis
        by (simp add: Number_toString_def)
    next
      case False
      with xn e format_digits_no_minus show ?thesis
        by (simp add: Number_toString_def) metis
    qed
  next
    case xp: False
    show ?thesis
    proof (cases "y < 0")
      case True
      with xp e format_digits_no_minus show ?thesis
        by (simp add: Number_toString_def)
    next
      case False
      with xp e same show ?thesis
        by (simp add: Number_toString_def)
    qed
  qed
qed

lemma bit_length_bounds: "0 < n \<Longrightarrow> 2 ^ (bit_length n - 1) \<le> n \<and> n < 2 ^ bit_length n"
proof (induction n rule: bit_length.induct)
  case (1 n)
  show ?case
  proof (cases "n div 2 = 0")
    case True
    with "1.prems" have "n = 1"
      by (simp add: div_eq_0_iff) 
    then show ?thesis
      by (simp add: bit_length.simps [of "Suc 0"] bit_length.simps [of 0])
  next
    case False
    with "1.prems" "1.IH" have ih: "2 ^ (bit_length (n div 2) - 1) \<le> n div 2"
      "n div 2 < 2 ^ bit_length (n div 2)"
      by simp_all
    from False have pos: "0 < bit_length (n div 2)"
      by (simp add: bit_length.simps [of "n div 2"])
    from "1.prems" have bl: "bit_length n = Suc (bit_length (n div 2))"
      by (simp add: bit_length.simps [of n])
    from pos have "(2::nat) ^ (bit_length n - 1) = 2 * 2 ^ (bit_length (n div 2) - 1)"
      unfolding bl by (cases "bit_length (n div 2)") simp_all
    also from ih(1) have "\<dots> \<le> 2 * (n div 2)"
      by simp
    also have "\<dots> \<le> n"
      by simp
    finally have lower: "2 ^ (bit_length n - 1) \<le> n" .
    have "n < 2 * (n div 2) + 2"
      by linarith
    also from ih(2) have "\<dots> \<le> 2 * 2 ^ bit_length (n div 2)"
      by simp
    finally have "n < 2 ^ bit_length n"
      unfolding bl by simp
    with lower show ?thesis
      by simp
  qed
qed

lemma to_double_large:
  assumes v: "2 ^ 53 \<le> v"
  shows "2 ^ 53 \<le> to_double v"
proof -
  define e where "e = bit_length v - 53"
  define q where "q = v div 2 ^ e"
  from v have pos: "0 < v"
    by (simp add: order_less_le_trans [of 0 "2 ^ 53" v])
  then have lower: "2 ^ (bit_length v - 1) \<le> v" and upper: "v < 2 ^ bit_length v"
    using bit_length_bounds [of v] by simp_all
  from v upper have "(2::nat) ^ 53 < 2 ^ bit_length v"
    by (rule order_le_less_trans)
  then have bl: "53 < bit_length v"
    by (rule power_less_imp_less_exp [rotated]) simp
  then have e: "1 \<le> e" and split: "bit_length v - 1 = 52 + e"
    by (simp_all add: e_def)
  have "(2::nat) ^ 52 * 2 ^ e \<le> v"
    using lower unfolding split by (simp add: power_add)
  then have q: "2 ^ 52 \<le> q"
    unfolding q_def by (simp add: less_eq_div_iff_mult_less_eq)
  from e have "(2::nat) ^ 1 \<le> 2 ^ e"
    by (intro power_increasing) simp_all
  then have two: "(2::nat) \<le> 2 ^ e"
    by simp
  have "(2::nat) ^ 53 = 2 ^ 52 * 2"
    by simp
  also from q two have "\<dots> \<le> q * 2 ^ e"
    by (rule mult_le_mono)
  finally have base: "2 ^ 53 \<le> q * 2 ^ e" .
  then have up: "2 ^ 53 \<le> (q + 1) * 2 ^ e"
    by (simp add: add_mult_distrib)
  from v have "\<not> v < 2 ^ 53"
    by simp
  then have "to_double v = q * 2 ^ e \<or> to_double v = (q + 1) * 2 ^ e"
    unfolding to_double_def Let_def q_def e_def by (simp split: if_splits)
  with base up show ?thesis
    by auto
qed

lemma to_double_small: "v < 2 ^ 53 \<Longrightarrow> to_double v = v"
  by (simp add: to_double_def)

lemma shortest_safe:
  assumes x: "x < 2 ^ 53"
  shows "shortest x j = x"
proof (rule ccontr)
  assume ne: "shortest x j \<noteq> x"
  with shortest_cases [of x j] have rt: "to_double (shortest x j) = x"
    by simp
  show False
  proof (cases "shortest x j < 2 ^ 53")
    case True
    then have "to_double (shortest x j) = shortest x j"
      by (rule to_double_small)
    with rt ne show False
      by simp
  next
    case False
    then have "2 ^ 53 \<le> to_double (shortest x j)"
      by (intro to_double_large) simp
    with rt x show False
      by simp
  qed
qed

lemma length_show_nat: "0 < k \<Longrightarrow> n < 10 ^ k \<Longrightarrow> length (show_nat n) \<le> k"
proof (induction n arbitrary: k rule: show_nat.induct)
  case (1 n)
  show ?case
  proof (cases "n < 10")
    case True
    with "1.prems" show ?thesis
      by (simp add: show_nat.simps [of n])
  next
    case False
    obtain k' where k: "k = Suc k'"
      using "1.prems"(1) by (cases k) simp_all
    from False "1.prems"(2) have "0 < k'"
      unfolding k by (cases k') simp_all
    moreover from "1.prems"(2) have "n div 10 < 10 ^ k'"
      unfolding k by (simp add: less_mult_imp_div_less mult.commute)
    ultimately have "length (show_nat (n div 10)) \<le> k'"
      using False by (intro "1.IH") simp_all
    with False show ?thesis
      by (simp add: show_nat.simps [of n] k)
  qed
qed

lemma format_digits_safe:
  assumes x: "x < 2 ^ 53"
  shows "format_digits x = show_nat x"
proof -
  have "(2::nat) ^ 53 \<le> 10 ^ 21"
    by simp
  with x have "x < 10 ^ 21"
    by (rule order_less_le_trans)
  then have "length (show_nat x) \<le> 21"
    by (intro length_show_nat) simp_all
  then show ?thesis
    by (simp add: format_digits_def Let_def)
qed

lemma Number_toString_safe:
  assumes x: "\<bar>x\<bar> < 2 ^ 53"
  shows "Number_toString x = show_int x"
proof -
  from x have "nat \<bar>x\<bar> < 2 ^ 53"
    by (simp add: nat_less_iff)
  then have *: "format_digits (shortest_value (nat \<bar>x\<bar>)) = show_nat (nat \<bar>x\<bar>)"
    by (simp add: shortest_value_def shortest_safe format_digits_safe)
  show ?thesis
  proof (cases "x < 0")
    case True
    then have "nat \<bar>x\<bar> = nat (- x)"
      by simp
    with * True show ?thesis
      by (simp add: Number_toString_def show_int_def)
  next
    case False
    then have "nat \<bar>x\<bar> = nat x"
      by simp
    with * False show ?thesis
      by (simp add: Number_toString_def show_int_def)
  qed
qed

lemma is_double_safe: "\<bar>x\<bar> < 2 ^ 53 \<Longrightarrow> is_double x"
proof -
  assume x: "\<bar>x\<bar> < 2 ^ 53"
  then have "nat \<bar>x\<bar> < 2 ^ 53"
    by (simp add: nat_less_iff)
  then have "to_double (nat \<bar>x\<bar>) = nat \<bar>x\<bar>"
    by (rule to_double_small)
  moreover have "(2::int) ^ 53 \<le> 2 ^ 1024"
    by (intro power_increasing) simp_all
  with x have "\<bar>x\<bar> < 2 ^ 1024"
    by (rule order_less_le_trans)
  ultimately show ?thesis
    by (simp add: is_double_def)
qed

lemmas Number_toString_eval =
  Number_toString_def format_digits_def shortest_value_def shortest.simps to_double_def
  bit_length.simps Let_def show_nat.simps digit_char_def significant_def

lemma tileKey_examples:
  "tileKey 3 (- 2) = ''3:-2''"
  "tileKey 36028797018963968 0 = ''36028797018963970:0''"
  "tileKey 1000000000000000000000 0 = ''1e+21:0''"
  by (simp_all add: tileKey_def Number_toString_eval)

lemma is_double_examples:
  "is_double 36028797018963968"
  "is_double 36028797018963976"
  by (simp_all add: is_double_def to_double_def bit_length.simps Let_def)

text \<open>
  C7. \<open>tileKey(tx, ty)\<close> is the string of \<open>tx\<close>, a colon, and the string of \<open>ty\<close>, without
  padding; for integers below \<open>2^53\<close> in magnitude the strings are the decimal notations
  (\<open>tileKey(3, -2) = "3:-2"\<close>), beyond they are the shortest digits that read back as
  the number, in exponent notation from \<open>10^21\<close>. It is injective over all pairs of
  integers that are numbers, negative ones included: two pairs have the same key
  exactly when they are the same pair.
\<close>

theorem tileKey_injective:
  "tileKey tx ty = Number_toString tx @ '':'' @ Number_toString ty \<and>
   (\<bar>tx\<bar> < 2 ^ 53 \<and> \<bar>ty\<bar> < 2 ^ 53 \<longrightarrow> tileKey tx ty = show_int tx @ '':'' @ show_int ty) \<and>
   tileKey 3 (- 2) = ''3:-2'' \<and>
   tileKey 36028797018963968 0 = ''36028797018963970:0'' \<and>
   tileKey 1000000000000000000000 0 = ''1e+21:0'' \<and>
   (is_double tx \<and> is_double ty \<and> is_double tx' \<and> is_double ty' \<longrightarrow>
      (tileKey tx ty = tileKey tx' ty' \<longleftrightarrow> tx = tx' \<and> ty = ty'))"
proof -
  have safe: "tileKey tx ty = show_int tx @ '':'' @ show_int ty"
    if "\<bar>tx\<bar> < 2 ^ 53 \<and> \<bar>ty\<bar> < 2 ^ 53"
    using that by (simp add: tileKey_def Number_toString_safe)
  have inj: "tx = tx' \<and> ty = ty'"
    if d: "is_double tx \<and> is_double ty \<and> is_double tx' \<and> is_double ty'"
      and e: "tileKey tx ty = tileKey tx' ty'"
  proof -
    from e have "Number_toString tx @ CHR '':'' # Number_toString ty =
        Number_toString tx' @ CHR '':'' # Number_toString ty'"
      by (simp add: tileKey_def)
    with Number_toString_no_colon [of tx] Number_toString_no_colon [of tx']
    have "Number_toString tx = Number_toString tx' \<and> Number_toString ty = Number_toString ty'"
      by (rule split_at_separator)
    with d show ?thesis
      by (simp add: Number_toString_inj)
  qed
  have def: "tileKey tx ty = Number_toString tx @ '':'' @ Number_toString ty"
    by (simp add: tileKey_def)
  from def safe inj tileKey_examples show ?thesis
    by blast
qed

text \<open>
  Keys that differ in a sign, keys of two neighbouring numbers above \<open>2^53\<close>, and a key
  in decimal notation.
\<close>

theorem tileKey_injective_witness:
  "tileKey 3 (- 2) \<noteq> tileKey 3 2 \<and>
   tileKey 36028797018963968 0 \<noteq> tileKey 36028797018963976 0 \<and>
   tileKey (- 64) 128 = ''-64:128''"
proof -
  have small: "is_double 3 \<and> is_double (- 2) \<and> is_double 3 \<and> is_double 2"
    by (simp add: is_double_safe)
  have large: "is_double 36028797018963968 \<and> is_double 0 \<and>
      is_double 36028797018963976 \<and> is_double 0"
    by (simp add: is_double_examples is_double_safe)
  have safe: "\<bar>- 64 :: int\<bar> < 2 ^ 53 \<and> \<bar>128 :: int\<bar> < 2 ^ 53"
    by simp
  have dec: "show_int (- 64) @ '':'' @ show_int 128 = ''-64:128''"
    by (simp add: show_int_def show_nat.simps digit_char_def)
  from tileKey_injective [of 3 "- 2" 3 2] small
  have "tileKey 3 (- 2) = tileKey 3 2 \<longleftrightarrow> (3::int) = 3 \<and> (- 2::int) = 2"
    by blast
  then have one: "tileKey 3 (- 2) \<noteq> tileKey 3 2"
    by simp
  from tileKey_injective [of 36028797018963968 0 36028797018963976 0] large
  have "tileKey 36028797018963968 0 = tileKey 36028797018963976 0 \<longleftrightarrow>
      (36028797018963968::int) = 36028797018963976 \<and> (0::int) = 0"
    by blast
  then have two: "tileKey 36028797018963968 0 \<noteq> tileKey 36028797018963976 0"
    by simp
  from tileKey_injective [of "- 64" 128 0 0] safe
  have "tileKey (- 64) 128 = show_int (- 64) @ '':'' @ show_int 128"
    by blast
  with dec have three: "tileKey (- 64) 128 = ''-64:128''"
    by simp
  from one two three show ?thesis
    by simp
qed

subsection \<open>Palette ids and ordinals\<close>

lemma PALETTE_INDEX_BY_ID_eq:
  "PALETTE_INDEX_BY_ID = [''classic'' \<mapsto> 0, ''earth'' \<mapsto> 1, ''shades'' \<mapsto> 2]"
  by (simp add: PALETTE_INDEX_BY_ID_def PALETTE_SET_def CLASSIC_PALETTE_def EARTH_PALETTE_def
        SHADES_PALETTE_def numeral_2_eq_2)

lemma palette_ids: "map pal_id (palettes PALETTE_SET) = [''classic'', ''earth'', ''shades'']"
  by (simp add: PALETTE_SET_def CLASSIC_PALETTE_def EARTH_PALETTE_def SHADES_PALETTE_def)

lemma default_id: "pal_id DEFAULT_PALETTE = ''classic''"
  by (simp add: DEFAULT_PALETTE_def CLASSIC_PALETTE_def)

lemma get_known:
  "PALETTE_INDEX_BY_ID_get ''classic'' = Num (Fin 0)"
  "PALETTE_INDEX_BY_ID_get ''earth'' = Num (Fin 1)"
  "PALETTE_INDEX_BY_ID_get ''shades'' = Num (Fin 2)"
  by (simp_all add: PALETTE_INDEX_BY_ID_get_def PALETTE_INDEX_BY_ID_eq)

lemma get_unknown:
  "ident \<notin> set (map pal_id (palettes PALETTE_SET)) \<Longrightarrow>
   \<not> isInteger_value (PALETTE_INDEX_BY_ID_get ident)"
  by (simp add: palette_ids PALETTE_INDEX_BY_ID_get_def PALETTE_INDEX_BY_ID_eq)

lemma ordinal_known:
  "paletteIdToOrdinal ''classic'' = Num (Fin 0)"
  "paletteIdToOrdinal ''earth'' = Num (Fin 1)"
  "paletteIdToOrdinal ''shades'' = Num (Fin 2)"
  by (simp_all add: paletteIdToOrdinal_def get_known)

lemma ordinal_unknown:
  "ident \<notin> set (map pal_id (palettes PALETTE_SET)) \<Longrightarrow> paletteIdToOrdinal ident = Num (Fin 0)"
  by (simp add: paletteIdToOrdinal_def Let_def get_unknown default_id get_known)

lemma id_known:
  "ordinalToPaletteId (Fin 0) = ''classic''"
  "ordinalToPaletteId (Fin 1) = ''earth''"
  "ordinalToPaletteId (Fin 2) = ''shades''"
  by (simp_all add: ordinalToPaletteId_def PALETTE_SET_def CLASSIC_PALETTE_def EARTH_PALETTE_def
        SHADES_PALETTE_def)

lemma array_get_None_iff:
  "array_get xs n = None \<longleftrightarrow>
   \<not> (\<exists>k::int. n = Fin (real_of_int k) \<and> 0 \<le> k \<and> k < int (length xs))"
proof (cases n)
  case (Fin r)
  have "array_get xs (Fin r) = None \<longleftrightarrow>
      \<not> (real_of_int \<lfloor>r\<rfloor> = r \<and> 0 \<le> r \<and> r < real (length xs))"
    by auto
  then show ?thesis
    unfolding Fin integer_in_range_iff by simp
qed simp_all

lemma id_out_of_range:
  "\<not> (\<exists>k::int. n = Fin (real_of_int k) \<and> 0 \<le> k \<and> k < int (length (palettes PALETTE_SET))) \<Longrightarrow>
   ordinalToPaletteId n = pal_id DEFAULT_PALETTE"
  by (simp only: ordinalToPaletteId_def array_get_None_iff [symmetric] option.case)

lemma small_cases: "i < length (palettes PALETTE_SET) \<Longrightarrow> i = 0 \<or> i = 1 \<or> i = 2"
  by (auto simp add: PALETTE_SET_def)

lemma nth_ids:
  "pal_id (palettes PALETTE_SET ! 0) = ''classic''"
  "pal_id (palettes PALETTE_SET ! Suc 0) = ''earth''"
  "pal_id (palettes PALETTE_SET ! 2) = ''shades''"
  by (simp_all add: PALETTE_SET_def CLASSIC_PALETTE_def EARTH_PALETTE_def SHADES_PALETTE_def)

text \<open>
  C3. \<open>paletteIdToOrdinal\<close> returns the catalog position of a known palette id
  (\<open>paletteIdToOrdinal("classic") = 0\<close>) and, for every id that is not in the catalog,
  the ordinal of the default palette, as an ordinary result. \<open>ordinalToPaletteId\<close>
  returns the id at a valid ordinal (\<open>ordinalToPaletteId(0) = "classic"\<close>) and, for
  every number that is not an integer within the catalog's range (such as 999), the
  id of the default palette. Hence \<open>ordinalToPaletteId(paletteIdToOrdinal(id)) = id\<close>
  for every id of the catalog.
\<close>

theorem palette_ordinal_fallback:
  "paletteIdToOrdinal ''classic'' = Num (Fin 0) \<and>
   ordinalToPaletteId (Fin 0) = ''classic'' \<and>
   ordinalToPaletteId (Fin 999) = pal_id DEFAULT_PALETTE \<and>
   paletteIdToOrdinal (pal_id DEFAULT_PALETTE) = Num (Fin 0) \<and>
   (i < length (palettes PALETTE_SET) \<longrightarrow>
      paletteIdToOrdinal (pal_id (palettes PALETTE_SET ! i)) = Num (Fin (real i)) \<and>
      ordinalToPaletteId (Fin (real i)) = pal_id (palettes PALETTE_SET ! i)) \<and>
   (unknown \<notin> set (map pal_id (palettes PALETTE_SET)) \<longrightarrow>
      paletteIdToOrdinal unknown = paletteIdToOrdinal (pal_id DEFAULT_PALETTE)) \<and>
   (\<not> (\<exists>k::int. n = Fin (real_of_int k) \<and> 0 \<le> k \<and> k < int (length (palettes PALETTE_SET))) \<longrightarrow>
      ordinalToPaletteId n = pal_id DEFAULT_PALETTE) \<and>
   (known \<in> set (map pal_id (palettes PALETTE_SET)) \<longrightarrow>
      (\<exists>m. paletteIdToOrdinal known = Num m \<and> ordinalToPaletteId m = known))"
proof -
  have a: "ordinalToPaletteId (Fin 999) = pal_id DEFAULT_PALETTE"
    by (simp add: ordinalToPaletteId_def PALETTE_SET_def)
  have b: "paletteIdToOrdinal (pal_id DEFAULT_PALETTE) = Num (Fin 0)"
    by (simp add: default_id ordinal_known)
  have c: "paletteIdToOrdinal (pal_id (palettes PALETTE_SET ! i)) = Num (Fin (real i)) \<and>
      ordinalToPaletteId (Fin (real i)) = pal_id (palettes PALETTE_SET ! i)"
    if "i < length (palettes PALETTE_SET)"
    using small_cases [OF that] by (auto simp add: nth_ids ordinal_known id_known)
  have d: "paletteIdToOrdinal unknown = paletteIdToOrdinal (pal_id DEFAULT_PALETTE)"
    if "unknown \<notin> set (map pal_id (palettes PALETTE_SET))"
    using ordinal_unknown [OF that] b by simp
  have e: "\<exists>m. paletteIdToOrdinal known = Num m \<and> ordinalToPaletteId m = known"
    if "known \<in> set (map pal_id (palettes PALETTE_SET))"
  proof -
    from that have "known = ''classic'' \<or> known = ''earth'' \<or> known = ''shades''"
      by (simp add: palette_ids)
    then show ?thesis
      by (auto simp add: ordinal_known id_known)
  qed
  from a b c d e id_out_of_range [of n] ordinal_known(1) id_known(1) show ?thesis
    by blast
qed

text \<open>
  The fallbacks at work: an id that names a member of \<open>Object.prototype\<close>, an id that
  names nothing, a negative ordinal and an ordinal beyond the catalog.
\<close>

theorem palette_ordinal_fallback_witness:
  "paletteIdToOrdinal ''constructor'' = Num (Fin 0) \<and>
   paletteIdToOrdinal ''neon'' = Num (Fin 0) \<and>
   paletteIdToOrdinal ''shades'' = Num (Fin 2) \<and>
   ordinalToPaletteId (Fin 2) = ''shades'' \<and>
   ordinalToPaletteId (Fin (- 1)) = ''classic'' \<and>
   ordinalToPaletteId (Fin 999) = ''classic''"
proof -
  have len: "(2::nat) < length (palettes PALETTE_SET)"
    by (simp add: PALETTE_SET_def)
  have nth: "pal_id (palettes PALETTE_SET ! 2) = ''shades''"
    by (rule nth_ids)
  have unk: "''constructor'' \<notin> set (map pal_id (palettes PALETTE_SET))"
    "''neon'' \<notin> set (map pal_id (palettes PALETTE_SET))"
    by (simp_all add: palette_ids)
  have out: "\<not> (\<exists>k::int. Fin (- 1) = Fin (real_of_int k) \<and> 0 \<le> k \<and>
      k < int (length (palettes PALETTE_SET)))"
    by auto
  from palette_ordinal_fallback [of 2 "''constructor''" "Fin (- 1)" "''shades''"]
    palette_ordinal_fallback [of 2 "''neon''" "Fin (- 1)" "''shades''"]
    len nth unk out
  show ?thesis
    by (simp add: default_id)
qed

subsection \<open>Color lookup\<close>

lemma findIndex_from_none:
  "(\<forall>c\<in>set cs. \<not> P c) \<Longrightarrow> findIndex_from P k cs = - 1"
  by (induction cs arbitrary: k) simp_all

lemma findIndex_from_first:
  "i < length cs \<Longrightarrow> P (cs ! i) \<Longrightarrow> (\<forall>j<i. \<not> P (cs ! j)) \<Longrightarrow>
   findIndex_from P k cs = k + int i"
proof (induction cs arbitrary: k i)
  case Nil
  then show ?case by simp
next
  case (Cons c cs)
  show ?case
  proof (cases i)
    case 0
    with Cons.prems show ?thesis by simp
  next
    case (Suc i')
    with Cons.prems have "\<not> P c"
      by auto
    moreover from Suc Cons.prems have "i' < length cs" "P (cs ! i')" "\<forall>j<i'. \<not> P (cs ! j)"
      by auto
    then have "findIndex_from P (k + 1) cs = k + 1 + int i'"
      by (rule Cons.IH)
    ultimately show ?thesis
      using Suc by simp
  qed
qed



lemma findColorIndex_first:
  "i < length (pal_colors p) \<Longrightarrow> norm_hex (pal_colors p ! i) = norm_hex color \<Longrightarrow>
   (\<forall>j<i. norm_hex (pal_colors p ! j) \<noteq> norm_hex color) \<Longrightarrow>
   findColorIndex color p = int i"
  unfolding findColorIndex_def Let_def findIndex_def
  using findIndex_from_first [of i "pal_colors p" "\<lambda>c. norm_hex c = norm_hex color" 0] by simp

lemma findColorIndex_none:
  "(\<forall>c\<in>set (pal_colors p). norm_hex c \<noteq> norm_hex color) \<Longrightarrow> findColorIndex color p = - 1"
  unfolding findColorIndex_def Let_def findIndex_def by (rule findIndex_from_none)

lemma findColorIndex_white:
  "findColorIndex ''#FFFFFF'' CLASSIC_PALETTE = 0"
  "findColorIndex ''#FFFFFFFF'' CLASSIC_PALETTE = 0"
  by (simp_all add: findColorIndex_def findIndex_def norm_hex_def toUpperCase_def
        toUpperCase_char_def CLASSIC_PALETTE_def)

lemma findColorIndex_nth:
  assumes d: "distinct (map norm_hex (pal_colors p))" and i: "i < length (pal_colors p)"
  shows "findColorIndex (pal_colors p ! i) p = int i"
proof (rule findColorIndex_first [OF i refl], intro allI impI)
  fix j assume j: "j < i"
  with i have lj: "j < length (map norm_hex (pal_colors p))"
    and li: "i < length (map norm_hex (pal_colors p))"
    by simp_all
  from d lj li have "(map norm_hex (pal_colors p) ! j = map norm_hex (pal_colors p) ! i) = (j = i)"
    by (rule nth_eq_iff_index_eq)
  with j have "map norm_hex (pal_colors p) ! j \<noteq> map norm_hex (pal_colors p) ! i"
    by simp
  moreover from i j have "map norm_hex (pal_colors p) ! j = norm_hex (pal_colors p ! j)"
    by simp
  moreover from i have "map norm_hex (pal_colors p) ! i = norm_hex (pal_colors p ! i)"
    by simp
  ultimately show "norm_hex (pal_colors p ! j) \<noteq> norm_hex (pal_colors p ! i)"
    by simp
qed

lemma shipped_distinct_c:
  "distinct (map norm_hex (pal_colors CLASSIC_PALETTE))"
  by code_simp

lemma shipped_distinct_e:
  "distinct (map norm_hex (pal_colors EARTH_PALETTE))"
  by code_simp

lemma shipped_distinct_s:
  "distinct (map norm_hex (pal_colors SHADES_PALETTE))"
  by code_simp

lemma shipped_upper_c:
  "distinct (map toUpperCase (pal_colors CLASSIC_PALETTE))"
  by code_simp

lemma shipped_upper_e:
  "distinct (map toUpperCase (pal_colors EARTH_PALETTE))"
  by code_simp

lemma shipped_upper_s:
  "distinct (map toUpperCase (pal_colors SHADES_PALETTE))"
  by code_simp

lemma shipped_length:
  "length (pal_colors CLASSIC_PALETTE) = 16"
  "length (pal_colors EARTH_PALETTE) = 16"
  "length (pal_colors SHADES_PALETTE) = 16"
  by (simp_all add: CLASSIC_PALETTE_def EARTH_PALETTE_def SHADES_PALETTE_def)











subsection \<open>Baseline color\<close>

text \<open>
  C9. The baseline color index equals \<open>findColorIndex("#FFFFFF", palette)\<close> when that
  index is non-negative, and equals 0 when no entry of the palette is pure white;
  \<open>DEFAULT_BASELINE_COLOR_INDEX\<close> is this value for the default palette, and with the
  shipped catalog it is 0, the position of white in the classic palette.
\<close>

theorem baseline_color_index_white:
  "(0 \<le> findColorIndex ''#FFFFFF'' p \<longrightarrow>
      baseline_color_index p = findColorIndex ''#FFFFFF'' p) \<and>
   ((\<forall>c\<in>set (pal_colors p). norm_hex c \<noteq> ''#FFFFFFFF'') \<longrightarrow> baseline_color_index p = 0) \<and>
   DEFAULT_BASELINE_COLOR_INDEX = baseline_color_index DEFAULT_PALETTE \<and>
   DEFAULT_BASELINE_COLOR_INDEX = findColorIndex ''#FFFFFF'' DEFAULT_PALETTE \<and>
   findColorIndex ''#FFFFFF'' CLASSIC_PALETTE = 0 \<and>
   pal_colors CLASSIC_PALETTE ! 0 = ''#FFFFFFFF'' \<and>
   DEFAULT_BASELINE_COLOR_INDEX = 0"
proof -
  have w: "norm_hex ''#FFFFFF'' = ''#FFFFFFFF''"
    by (simp add: norm_hex_def toUpperCase_def toUpperCase_char_def)
  have a: "0 \<le> findColorIndex ''#FFFFFF'' p \<longrightarrow>
      baseline_color_index p = findColorIndex ''#FFFFFF'' p"
    by (simp add: baseline_color_index_def Let_def)
  have b: "(\<forall>c\<in>set (pal_colors p). norm_hex c \<noteq> ''#FFFFFFFF'') \<longrightarrow> baseline_color_index p = 0"
    using findColorIndex_none [of p "''#FFFFFF''"]
    by (simp add: baseline_color_index_def Let_def w)
  have c: "DEFAULT_BASELINE_COLOR_INDEX = findColorIndex ''#FFFFFF'' DEFAULT_PALETTE"
    by (simp add: DEFAULT_BASELINE_COLOR_INDEX_def baseline_color_index_def Let_def
          DEFAULT_PALETTE_def findColorIndex_white)
  have d: "DEFAULT_BASELINE_COLOR_INDEX = 0"
    by (simp add: c DEFAULT_PALETTE_def findColorIndex_white)
  have e: "pal_colors CLASSIC_PALETTE ! 0 = ''#FFFFFFFF''"
    by (simp add: CLASSIC_PALETTE_def)
  from a b c d e findColorIndex_white(1) show ?thesis
    by (simp add: DEFAULT_BASELINE_COLOR_INDEX_def)
qed

text \<open>
  The earth palette has no white, so its baseline would be 0 by the fallback; a palette
  with white at position 2 has baseline 2.
\<close>

theorem baseline_color_index_white_witness:
  "baseline_color_index EARTH_PALETTE = 0 \<and>
   baseline_color_index
     \<lparr> pal_id = ''night'', pal_name = ''Night'', pal_version = 1,
       pal_colors = [''#000000FF'', ''#222244FF'', ''#FFFFFF''] \<rparr> = 2"
proof -
  let ?night = "\<lparr> pal_id = ''night'', pal_name = ''Night'', pal_version = 1,
       pal_colors = [''#000000FF'', ''#222244FF'', ''#FFFFFF''] \<rparr>"
  have absent: "\<forall>c\<in>set (pal_colors EARTH_PALETTE). norm_hex c \<noteq> ''#FFFFFFFF''"
    by code_simp
  have found: "findColorIndex ''#FFFFFF'' ?night = 2"
    by code_simp
  from baseline_color_index_white [of EARTH_PALETTE] absent have one: "baseline_color_index EARTH_PALETTE = 0"
    by blast
  from baseline_color_index_white [of ?night] found have two: "baseline_color_index ?night = 2"
    by simp
  from one two show ?thesis
    by simp
qed

subsection \<open>The shipped palettes\<close>

text \<open>
  C10. In each of the three shipped palettes (classic, earth, shades) the 16 color
  entries are pairwise distinct after case normalization, so looking a palette's own
  entry up gives its index back: \<open>findColorIndex(p.colors[i], p) = i\<close> for every palette
  \<open>p\<close> of \<open>PALETTE_SET.palettes\<close> and every \<open>i\<close> with \<open>0 \<le> i < p.colors.length\<close>.
\<close>

theorem shipped_palettes_roundtrip:
  "p \<in> set (palettes PALETTE_SET) \<Longrightarrow> i < length (pal_colors p) \<Longrightarrow>
   length (pal_colors p) = 16 \<and>
   distinct (map toUpperCase (pal_colors p)) \<and>
   distinct (map norm_hex (pal_colors p)) \<and>
   findColorIndex (pal_colors p ! i) p = int i"
proof -
  assume p: "p \<in> set (palettes PALETTE_SET)" and i: "i < length (pal_colors p)"
  from p have cases: "p = CLASSIC_PALETTE \<or> p = EARTH_PALETTE \<or> p = SHADES_PALETTE"
    by (simp add: PALETTE_SET_def)
  then have len: "length (pal_colors p) = 16"
    by (auto simp add: shipped_length)
  from cases have d: "distinct (map norm_hex (pal_colors p))"
    by (auto simp add: shipped_distinct_c shipped_distinct_e shipped_distinct_s)
  from cases have u: "distinct (map toUpperCase (pal_colors p))"
    by (auto simp add: shipped_upper_c shipped_upper_e shipped_upper_s)
  from d i have "findColorIndex (pal_colors p ! i) p = int i"
    by (rule findColorIndex_nth)
  with len d u show ?thesis
    by simp
qed

text \<open>Entry 5 of the earth palette and entry 15 of the shades palette.\<close>

theorem shipped_palettes_roundtrip_witness:
  "findColorIndex ''#B78A56FF'' EARTH_PALETTE = 5 \<and>
   findColorIndex ''#000000FF'' SHADES_PALETTE = 15 \<and>
   distinct (map norm_hex (pal_colors EARTH_PALETTE))"
proof -
  have e: "EARTH_PALETTE \<in> set (palettes PALETTE_SET)" "5 < length (pal_colors EARTH_PALETTE)"
    "pal_colors EARTH_PALETTE ! 5 = ''#B78A56FF''"
    by (simp_all add: PALETTE_SET_def EARTH_PALETTE_def)
  have s: "SHADES_PALETTE \<in> set (palettes PALETTE_SET)" "15 < length (pal_colors SHADES_PALETTE)"
    "pal_colors SHADES_PALETTE ! 15 = ''#000000FF''"
    by (simp_all add: PALETTE_SET_def SHADES_PALETTE_def)
  from shipped_palettes_roundtrip [OF e(1) e(2)] shipped_palettes_roundtrip [OF s(1) s(2)] e(3) s(3) show ?thesis
    by simp
qed

subsection \<open>Delta convergence\<close>











end

